theory Spec2Isabelle
  imports Complex_Main "HOL-Library.Log_Nat"
begin

section \<open>Data model of the Saber game (src/games/SaberGame.tsx)\<close>

text \<open>
  JavaScript numbers are modelled as exact numbers: counters (score, combo, the note
  counters) as \<open>nat\<close>, the energy as \<open>int\<close> (one update of the source can
  take it below zero), and positions, depths and frame times as \<open>real\<close>. The
  times of the beat scheduler are the exception: how many subdivisions one call
  drains depends on the rounding of the sums, so they are computed in double
  arithmetic, as the source does. Every call of \<open>Math.random()\<close> is an input of
  the model, one argument per call site. Canvas drawing, sound synthesis, particles
  and debris have no influence on the session state and are left out.
\<close>

section \<open>Double arithmetic\<close>

text \<open>
  A JavaScript number is an IEEE 754 binary64 value. A double is modelled as the real
  number it denotes, and an operation of the source as the exact operation followed
  by \<open>fl\<close>, the rounding to the nearest double, ties to the even significand.
  \<open>binexp x\<close> is the binary exponent of \<open>x\<close>, the \<open>e\<close> with
  \<open>2 ^ e \<le> \<bar>x\<bar> < 2 ^ (e + 1)\<close>; \<open>quantum x\<close> is the distance of neighbouring
  doubles around \<open>x\<close>, \<open>2 ^ (e - 52)\<close>, and \<open>2 ^ - 1074\<close> in the subnormal
  range. Overflow to \<open>Infinity\<close> (from \<open>2 ^ 1024\<close> on) and \<open>NaN\<close> are not
  modelled.
\<close>

definition roundHalfEven :: "real \<Rightarrow> int" where
  "roundHalfEven y =
     (let f = \<lfloor>y\<rfloor>; d = y - of_int f
      in if d < 1 / 2 then f else if d > 1 / 2 then f + 1 else if even f then f else f + 1)"

definition binexp :: "real \<Rightarrow> int" where
  "binexp x =
     (if \<bar>x\<bar> \<ge> 1 then int (floorlog 2 (nat \<lfloor>\<bar>x\<bar>\<rfloor>)) - 1
      else - int (floorlog 2 (nat \<lceil>1 / \<bar>x\<bar>\<rceil> - 1)))"

definition pow2 :: "int \<Rightarrow> real" where
  "pow2 e = (if e \<ge> 0 then 2 ^ nat e else 1 / 2 ^ nat (- e))"

definition quantum :: "real \<Rightarrow> real" where
  "quantum x = pow2 (max (binexp x) (- 1022) - 52)"

definition fl :: "real \<Rightarrow> real" where
  "fl x = (if x = 0 then 0 else of_int (roundHalfEven (x / quantum x)) * quantum x)"

text \<open>The operators \<open>+\<close>, \<open>*\<close> and \<open>/\<close> of the source on doubles.\<close>

definition dadd :: "real \<Rightarrow> real \<Rightarrow> real" where
  "dadd x y = fl (x + y)"

definition dmul :: "real \<Rightarrow> real \<Rightarrow> real" where
  "dmul x y = fl (x * y)"

definition ddiv :: "real \<Rightarrow> real \<Rightarrow> real" where
  "ddiv x y = fl (x / y)"

datatype block_color = Red | Blue

datatype block_type = Normal | Bomb

datatype BlockDirection = UP | DOWN | LEFT | RIGHT | DOT

record SaberBlock =
  blockId :: real
  gridX :: real
  gridY :: real
  blockZ :: real
  color :: block_color
  blockType :: block_type
  direction :: "BlockDirection option"
  blockHit :: bool
  cutAngle :: "real option"
  blockRemove :: bool

datatype obstacle_type = WALL_TOP | WALL_LEFT | WALL_RIGHT

record Obstacle =
  obsId :: real
  obsType :: obstacle_type
  obsZ :: real
  duration :: real
  obsHit :: bool
  obsRemove :: bool

record SaberState =
  handX :: real
  handY :: real
  history :: "(real \<times> real) list"
  velocityVector :: "real \<times> real"
  velocityMagnitude :: real

text \<open>
  The refs and the callback of the component. \<open>timerID\<close> holds the tempo of the
  running scheduler interval, \<open>userAudioBuffer\<close> whether a decoded track is present,
  \<open>analyser\<close> whether the analyser node and its data array exist,
  \<open>fileClicks\<close> the number of clicks sent to the file input, \<open>startCalls\<close> the
  calls of \<open>startLevel\<close> made so far with their arguments, \<open>gameOver\<close> the calls
  of \<open>onGameOver\<close> made so far, and \<open>schedTrace\<close> the locals \<open>(beat, time)\<close> of
  every iteration of the scheduler loop, in order.
\<close>

record saber =
  score :: nat
  combo :: nat
  energy :: int
  hitNotes :: nat
  totalNotes :: nat
  blocks :: "SaberBlock list"
  obstacles :: "Obstacle list"
  leftHand :: SaberState
  rightHand :: SaberState
  headPos :: "real \<times> real"
  bodyX :: real
  nextNoteTime :: real
  current16thNote :: nat
  timerID :: "real option"
  userAudioBuffer :: bool
  analyser :: bool
  isPlaying :: bool
  hoverStartTime :: real
  hoveredTrackId :: "string option"
  currentTrackName :: string
  lastSpawnTime :: real
  bassHistory :: "real list"
  fileClicks :: nat
  startCalls :: "(real \<times> string) list"
  gameOver :: "(nat \<times> string) list"
  schedTrace :: "(nat \<times> real) list"

definition FOCAL_LENGTH :: real where "FOCAL_LENGTH = 350"
definition BLOCK_SIZE :: real where "BLOCK_SIZE = 200"
definition GAME_SPEED :: real where "GAME_SPEED = 22"
definition SPAWN_Z :: real where "SPAWN_Z = 3500"
definition HIT_WINDOW_Z_NEAR :: real where "HIT_WINDOW_Z_NEAR = - 150"
definition HIT_WINDOW_Z_FAR :: real where "HIT_WINDOW_Z_FAR = 350"
definition GRID_X_SPACING :: real where "GRID_X_SPACING = 1000"
definition GRID_Y_SPACING :: real where "GRID_Y_SPACING = 240"

section \<open>Starting and finishing a level\<close>

text \<open>
  \<open>startLevel\<close>: the argument \<open>ctx\<close> is the result of \<open>initAudioContext()\<close>, the
  current time of the audio context, or \<open>None\<close> when no context can be created. The
  first note time is the double sum \<open>ctx.currentTime + 0.5\<close>.
\<close>

definition startLevel :: "real \<Rightarrow> string \<Rightarrow> real option \<Rightarrow> saber \<Rightarrow> saber" where
  "startLevel bpm trackName ctx s =
     (let s1 = s\<lparr>currentTrackName := trackName,
                  startCalls := startCalls s @ [(bpm, trackName)]\<rparr> in
      case ctx of
        None \<Rightarrow> s1
      | Some currentTime \<Rightarrow>
          (let s2 = s1\<lparr>score := 0, combo := 0, energy := 50, blocks := [], obstacles := [],
                       hitNotes := 0, totalNotes := 0, timerID := None,
                       analyser := True\<rparr>;
               s3 = (if userAudioBuffer s2 then s2
                     else s2\<lparr>nextNoteTime := dadd currentTime 0.5, current16thNote := 0,
                             timerID := Some bpm\<rparr>)
           in s3\<lparr>isPlaying := True\<rparr>))"

text \<open>The grade computed by \<open>finishGame\<close> from the two note counters.\<close>

definition grade_of :: "nat \<Rightarrow> nat \<Rightarrow> string" where
  "grade_of hitN totalN =
     (if totalN > 0 then
        (let accuracy = real hitN / real totalN in
         if accuracy \<ge> 0.90 then ''SSS''
         else if accuracy \<ge> 0.85 then ''SS''
         else if accuracy \<ge> 0.75 then ''S''
         else if accuracy \<ge> 0.60 then ''A''
         else if accuracy \<ge> 0.45 then ''B''
         else ''C'')
      else ''D'')"

definition finishGame :: "saber \<Rightarrow> saber" where
  "finishGame s =
     s\<lparr>isPlaying := False, userAudioBuffer := False,
       gameOver := gameOver s @ [(score s, grade_of (hitNotes s) (totalNotes s))]\<rparr>"

section \<open>Spawning\<close>

definition dirs :: "BlockDirection list" where
  "dirs = [UP, DOWN, LEFT, RIGHT, DOT]"

text \<open>
  \<open>spawnBlock\<close>: \<open>rid\<close> is the draw behind the identifier and \<open>rdir\<close> the draw that
  picks the direction; an index outside \<open>dirs\<close> reads \<open>undefined\<close> (\<open>None\<close>).
\<close>

definition spawnBlock ::
  "real \<Rightarrow> real \<Rightarrow> block_color \<Rightarrow> block_type \<Rightarrow> real \<Rightarrow> real \<Rightarrow> saber \<Rightarrow> saber" where
  "spawnBlock gx gy col ty rid rdir s =
     (let i = \<lfloor>rdir * real (length dirs)\<rfloor>;
          b = \<lparr>blockId = rid, gridX = gx, gridY = gy, blockZ = SPAWN_Z, color = col,
               blockType = ty,
               direction = (if ty = Bomb then Some DOT
                            else if 0 \<le> i \<and> i < int (length dirs) then Some (dirs ! nat i)
                            else None),
               blockHit = False, cutAngle = None, blockRemove = False\<rparr>;
          s1 = s\<lparr>blocks := blocks s @ [b]\<rparr>
      in if ty = Normal then s1\<lparr>totalNotes := totalNotes s1 + 1\<rparr> else s1)"

definition spawnWall :: "obstacle_type \<Rightarrow> real \<Rightarrow> saber \<Rightarrow> saber" where
  "spawnWall ty rid s =
     s\<lparr>obstacles := obstacles s @
        [\<lparr>obsId = rid, obsType = ty, obsZ = SPAWN_Z, duration = 400, obsHit = False,
          obsRemove = False\<rparr>]\<rparr>"

section \<open>The beat scheduler\<close>

text \<open>
  The draws of one iteration of the scheduler loop. The spawn conditions of one
  iteration exclude each other, so one identifier draw and one direction draw serve
  whichever \<open>spawnBlock\<close> runs, and \<open>rChance\<close> serves the draw of beat 14 or of beat 2.
\<close>

record sched_rnd =
  rBlockId :: real
  rBlockDir :: real
  rChance :: real
  rWallChance :: real
  rWallSide :: real
  rWallId :: real

text \<open>The constant \<open>scheduleAhead\<close> is the double that the literal \<open>0.1\<close> denotes.\<close>

definition scheduleAhead :: real where "scheduleAhead = fl 0.1"

text \<open>
  The body of the \<open>while\<close> loop of \<open>scheduler\<close>. The tempo is a positive number of
  the track list; \<open>60 / 0\<close> is \<open>Infinity\<close> in the source and is not modelled.
  \<open>secondsPerBeat\<close> is the double quotient \<open>60.0 / bpm\<close>, and the next note time
  advances by the double product \<open>0.25 * secondsPerBeat\<close>, added in double
  arithmetic (\<open>nextNoteTimeRef.current += 0.25 * secondsPerBeat\<close>).
\<close>

definition subdivision :: "real \<Rightarrow> sched_rnd \<Rightarrow> saber \<Rightarrow> saber" where
  "subdivision bpm r s =
     (let secondsPerBeat = ddiv 60 bpm;
          beat = current16thNote s;
          time = nextNoteTime s;
          s0 = s\<lparr>schedTrace := schedTrace s @ [(beat, time)]\<rparr>;
          s1 = (if beat = 0 then spawnBlock 2 0 Blue Normal (rBlockId r) (rBlockDir r) s0 else s0);
          s2 = (if beat = 8 then spawnBlock 2 1 Blue Normal (rBlockId r) (rBlockDir r) s1 else s1);
          s3 = (if beat = 4 then spawnBlock 1 0 Red Normal (rBlockId r) (rBlockDir r) s2 else s2);
          s4 = (if beat = 12 then spawnBlock 1 1 Red Normal (rBlockId r) (rBlockDir r) s3 else s3);
          s5 = (if beat = 14 \<and> rChance r > 0.5
                then spawnBlock 2 2 Blue Normal (rBlockId r) (rBlockDir r) s4 else s4);
          s6 = (if beat = 2 \<and> rChance r > 0.6
                then spawnBlock 1 2 Red Normal (rBlockId r) (rBlockDir r) s5 else s5);
          s7 = (if rWallChance r < 0.02 \<and> beat = 0
                then spawnWall (if rWallSide r > 0.5 then WALL_LEFT else WALL_RIGHT) (rWallId r) s6
                else s6)
      in s7\<lparr>nextNoteTime := dadd (nextNoteTime s7) (dmul 0.25 secondsPerBeat),
            current16thNote := (current16thNote s7 + 1) mod 16\<rparr>)"

text \<open>
  \<open>scheduler\<close>: \<open>now\<close> is \<open>ctx.currentTime\<close>, taken as constant during one call, and
  \<open>rnd k\<close> holds the draws of the \<open>k\<close>-th iteration. The loop test compares the
  next note time with the double sum \<open>ctx.currentTime + scheduleAhead\<close>. The loop
  need not end (an increment that is not positive, or too small to change the sum),
  so the result is an option.
\<close>

partial_function (option) scheduler_loop ::
  "real \<Rightarrow> real \<Rightarrow> (nat \<Rightarrow> sched_rnd) \<Rightarrow> nat \<Rightarrow> saber \<Rightarrow> saber option" where
  "scheduler_loop bpm now rnd k s =
     (if nextNoteTime s < dadd now scheduleAhead
      then scheduler_loop bpm now rnd (Suc k) (subdivision bpm (rnd k) s)
      else Some s)"

definition scheduler :: "real \<Rightarrow> real \<Rightarrow> (nat \<Rightarrow> sched_rnd) \<Rightarrow> saber \<Rightarrow> saber option" where
  "scheduler bpm now rnd s = scheduler_loop bpm now rnd 0 s"


section \<open>Pose tracking\<close>

record landmark =
  lmX :: real
  lmY :: real
  visibility :: real

definition lm_at :: "landmark list \<Rightarrow> nat \<Rightarrow> landmark option" where
  "lm_at lm idx = (if idx < length lm then Some (lm ! idx) else None)"

text \<open>\<open>updateHand\<close> of \<open>updateGame\<close>, for a canvas of width \<open>w\<close> and height \<open>h\<close>.\<close>

definition updateHand :: "real \<Rightarrow> real \<Rightarrow> landmark option \<Rightarrow> SaberState \<Rightarrow> SaberState" where
  "updateHand w h l hand =
     (case l of
        None \<Rightarrow> hand
      | Some p \<Rightarrow>
          if visibility p > 0.5 then
            (let x = (1 - lmX p) * w;
                 y = lmY p * h;
                 vv = (x - handX hand, y - handY hand);
                 hist = history hand @ [(x, y)]
             in hand\<lparr>velocityVector := vv,
                     velocityMagnitude := sqrt ((fst vv)\<^sup>2 + (snd vv)\<^sup>2),
                     handX := x, handY := y,
                     history := (if length hist > 6 then tl hist else hist)\<rparr>)
          else hand)"

text \<open>
  The tracking part of \<open>updateGame\<close>; \<open>frame\<close> is \<open>None\<close> when the video has not
  started or the detector reports no pose.
\<close>

definition updateTracking :: "real \<Rightarrow> real \<Rightarrow> landmark list option \<Rightarrow> saber \<Rightarrow> saber" where
  "updateTracking w h frame s =
     (case frame of
        None \<Rightarrow> s
      | Some lm \<Rightarrow>
          s\<lparr>leftHand := updateHand w h (lm_at lm 19) (leftHand s),
            rightHand := updateHand w h (lm_at lm 20) (rightHand s),
            headPos := (case lm_at lm 0 of
                          Some p \<Rightarrow> (1 - lmX p, lmY p)
                        | None \<Rightarrow> headPos s),
            bodyX := (case (lm_at lm 11, lm_at lm 12) of
                        (Some a, Some b) \<Rightarrow> 1 - (lmX a + lmX b) / 2
                      | _ \<Rightarrow> bodyX s)\<rparr>)"

section \<open>One frame of a level\<close>

text \<open>
  The draws and readings of \<open>analyzeAndSpawn\<close>: the frequency bins of the analyser,
  the two readings of \<open>performance.now()\<close>, and the draws of the two spawns.
\<close>

record analysis_in =
  freqData :: "real list"
  perfNow :: real
  perfNowAfter :: real
  rSecond :: real
  rId1 :: real
  rDir1 :: real
  rId2 :: real
  rDir2 :: real

definition analyzeAndSpawn :: "analysis_in \<Rightarrow> saber \<Rightarrow> saber" where
  "analyzeAndSpawn a s =
     (if \<not> analyser s then s
      else
        (let bass = sum_list (take 10 (freqData a)) / 10;
             hist0 = bassHistory s @ [bass];
             hist = (if length hist0 > 30 then tl hist0 else hist0);
             s1 = s\<lparr>bassHistory := hist\<rparr>;
             avg = sum_list hist / real (length hist)
         in if perfNow a - lastSpawnTime s1 > 600 \<and> bass > avg * 1.3 \<and> bass > 120 then
              (let s2 = spawnBlock 2 0 Blue Normal (rId1 a) (rDir1 a) s1;
                   s3 = (if rSecond a > 0.6
                         then spawnBlock 1 0 Red Normal (rId2 a) (rDir2 a) s2 else s2)
               in s3\<lparr>lastSpawnTime := perfNowAfter a\<rparr>)
            else s1))"

text \<open>\<open>project\<close> returns the screen position and the scale.\<close>

definition project :: "real \<Rightarrow> real \<Rightarrow> real \<Rightarrow> real \<Rightarrow> real \<Rightarrow> real \<times> real \<times> real" where
  "project x y z cx cy =
     (let scale = FOCAL_LENGTH / (FOCAL_LENGTH + z)
      in (cx + x * scale, cy + y * scale, scale))"

definition hitCheck :: "SaberState \<Rightarrow> real \<Rightarrow> real \<Rightarrow> real \<Rightarrow> bool" where
  "hitCheck hand px py blockSize =
     (let dist = sqrt ((handX hand - px)\<^sup>2 + (handY hand - py)\<^sup>2)
      in dist < blockSize * 1.5)"

text \<open>\<open>Math.atan2\<close>, the angle of the vector \<open>(x, y)\<close> in \<open>(-pi, pi]\<close>.\<close>

definition atan2 :: "real \<Rightarrow> real \<Rightarrow> real" where
  "atan2 y x =
     (if x > 0 then arctan (y / x)
      else if x < 0 \<and> y \<ge> 0 then arctan (y / x) + pi
      else if x < 0 then arctan (y / x) - pi
      else if y > 0 then pi / 2
      else if y < 0 then - pi / 2
      else 0)"

text \<open>
  The hit judgement of one block inside its depth window: \<open>px\<close>, \<open>py\<close> and \<open>blockSize\<close>
  are the projected position and size of the block.
\<close>

definition judgeBlock ::
  "real \<Rightarrow> real \<Rightarrow> real \<Rightarrow> SaberBlock \<Rightarrow> saber \<Rightarrow> SaberBlock \<times> saber" where
  "judgeBlock px py blockSize block s =
     (let leftHit = hitCheck (leftHand s) px py blockSize;
          rightHit = hitCheck (rightHand s) px py blockSize
      in if blockType block = Bomb then
           (if leftHit \<or> rightHit then
              (let s1 = s\<lparr>energy := max 0 (energy s - 15), combo := 0\<rparr>
               in (block\<lparr>blockHit := True\<rparr>, if energy s1 \<le> 0 then finishGame s1 else s1))
            else (block, s))
         else
           (let used1 = (if color block = Red \<and> leftHit then Some (leftHand s) else None);
                usedHand = (if color block = Blue \<and> rightHit then Some (rightHand s) else used1)
            in case usedHand of
                 None \<Rightarrow> (block, s)
               | Some hand \<Rightarrow>
                   (block\<lparr>blockHit := True,
                          cutAngle := Some (atan2 (snd (velocityVector hand))
                                                  (fst (velocityVector hand)))\<rparr>,
                    s\<lparr>hitNotes := hitNotes s + 1,
                      score := score s + (100 + (if combo s > 10 then 10 else 0)),
                      combo := combo s + 1,
                      energy := min 100 (energy s + 4)\<rparr>)))"

text \<open>The removal of a block that has passed the player, with the miss penalty.\<close>

definition expireBlock :: "SaberBlock \<Rightarrow> saber \<Rightarrow> SaberBlock \<times> saber" where
  "expireBlock block s =
     (block\<lparr>blockRemove := True\<rparr>,
      if \<not> blockHit block \<and> blockType block \<noteq> Bomb then
        (let s1 = s\<lparr>combo := 0, energy := max 0 (energy s - 8)\<rparr>
         in if energy s1 \<le> 0 then finishGame s1 else s1)
      else s)"

text \<open>
  The callback of \<open>blocksRef.current.forEach\<close> in \<open>updateLevel\<close>, for the canvas
  centre \<open>(cx, cy)\<close>.
\<close>

definition updateBlock :: "real \<Rightarrow> real \<Rightarrow> SaberBlock \<Rightarrow> saber \<Rightarrow> SaberBlock \<times> saber" where
  "updateBlock cx cy block s =
     (if blockRemove block then (block, s)
      else
        (let b1 = block\<lparr>blockZ := blockZ block - GAME_SPEED\<rparr>;
             xOffset = (gridX b1 - 1.5) * GRID_X_SPACING;
             yOffset = (1 - gridY b1) * GRID_Y_SPACING;
             proj = project xOffset yOffset (blockZ b1) cx cy;
             blockSize = BLOCK_SIZE * snd (snd proj);
             (b2, s2) = (if \<not> blockHit b1 \<and> blockZ b1 < HIT_WINDOW_Z_FAR
                            \<and> blockZ b1 > HIT_WINDOW_Z_NEAR
                         then judgeBlock (fst proj) (fst (snd proj)) blockSize b1 s
                         else (b1, s))
         in if blockZ b2 < - 250 then expireBlock b2 s2 else (b2, s2)))"

fun updateBlocks :: "real \<Rightarrow> real \<Rightarrow> SaberBlock list \<Rightarrow> saber \<Rightarrow> SaberBlock list \<times> saber" where
  "updateBlocks cx cy [] s = ([], s)"
| "updateBlocks cx cy (b # bs) s =
     (let (b', s1) = updateBlock cx cy b s;
          (bs', s2) = updateBlocks cx cy bs s1
      in (b' # bs', s2))"

text \<open>The callback of \<open>obstaclesRef.current.forEach\<close> in \<open>updateLevel\<close>.\<close>

definition updateObstacle :: "Obstacle \<Rightarrow> saber \<Rightarrow> Obstacle \<times> saber" where
  "updateObstacle obs s =
     (let o1 = obs\<lparr>obsZ := obsZ obs - GAME_SPEED\<rparr>;
          (o2, s2) =
            (if \<not> obsHit o1 \<and> obsZ o1 < 250 \<and> obsZ o1 > - 100 then
               (let hit = (obsType o1 = WALL_TOP \<and> snd (headPos s) < 0.45)
                          \<or> (obsType o1 = WALL_LEFT \<and> bodyX s < 0.4)
                          \<or> (obsType o1 = WALL_RIGHT \<and> bodyX s > 0.6)
                in if hit then (o1\<lparr>obsHit := True\<rparr>, s\<lparr>energy := energy s - 10, combo := 0\<rparr>)
                   else (o1, s))
             else (o1, s))
      in (if obsZ o2 < - 500 then o2\<lparr>obsRemove := True\<rparr> else o2, s2))"

fun updateObstacles :: "Obstacle list \<Rightarrow> saber \<Rightarrow> Obstacle list \<times> saber" where
  "updateObstacles [] s = ([], s)"
| "updateObstacles (obs # os) s =
     (let (o', s1) = updateObstacle obs s;
          (os', s2) = updateObstacles os s1
      in (o' # os', s2))"

text \<open>\<open>updateLevel\<close> for a canvas of width \<open>w\<close> and height \<open>h\<close>.\<close>

definition updateLevel :: "real \<Rightarrow> real \<Rightarrow> analysis_in \<Rightarrow> saber \<Rightarrow> saber" where
  "updateLevel w h a s =
     (let s0 = (if userAudioBuffer s then analyzeAndSpawn a s else s);
          cx = w / 2;
          cy = h / 2;
          (bs, s1) = updateBlocks cx cy (blocks s0) s0;
          s2 = s1\<lparr>blocks := filter (\<lambda>b. \<not> blockRemove b) bs\<rparr>;
          (os, s3) = updateObstacles (obstacles s2) s2
      in s3\<lparr>obstacles := filter (\<lambda>ob. \<not> obsRemove ob) os\<rparr>)"

section \<open>The track menu\<close>

datatype track_type = GENERATED | UPLOAD

datatype difficulty = Easy | Medium | Hard

record Track =
  trackId :: string
  trackName :: string
  trackBpm :: real
  trackType :: track_type
  trackDifficulty :: difficulty

text \<open>The track list; the names and difficulty labels are written in ASCII here.\<close>

definition TRACK_LIST :: "Track list" where
  "TRACK_LIST =
     [\<lparr>trackId = ''track_1'', trackName = ''Neon Pulse'', trackBpm = 105,
       trackType = GENERATED, trackDifficulty = Easy\<rparr>,
      \<lparr>trackId = ''track_2'', trackName = ''Cyber Storm'', trackBpm = 130,
       trackType = GENERATED, trackDifficulty = Medium\<rparr>,
      \<lparr>trackId = ''track_3'', trackName = ''Void Walker'', trackBpm = 150,
       trackType = GENERATED, trackDifficulty = Hard\<rparr>,
      \<lparr>trackId = ''upload'', trackName = ''MP3'', trackBpm = 120,
       trackType = UPLOAD, trackDifficulty = Medium\<rparr>]"

definition cardW :: real where "cardW = 600"
definition cardH :: real where "cardH = 90"
definition startY :: real where "startY = 220"
definition gap :: real where "gap = 25"

definition checkHover :: "SaberState \<Rightarrow> real \<Rightarrow> real \<Rightarrow> bool" where
  "checkHover hand x y =
     (handX hand > x \<and> handX hand < x + cardW \<and> handY hand > y \<and> handY hand < y + cardH)"

text \<open>
  The callback of \<open>TRACK_LIST.forEach\<close> in \<open>updateMenu\<close>. It threads the local
  \<open>hoveredItem\<close>, the progress values drawn in this frame, and the state; \<open>ctx\<close> is
  the result of \<open>initAudioContext()\<close>.
\<close>

definition menuTrack ::
  "real \<Rightarrow> real \<Rightarrow> real option \<Rightarrow> nat \<Rightarrow> Track \<Rightarrow> string option \<times> real list \<times> saber
     \<Rightarrow> string option \<times> real list \<times> saber" where
  "menuTrack cx timestamp ctx idx track acc =
     (let (hoveredItem, drawn, s) = acc;
          y = startY + real idx * (cardH + gap);
          x = cx - cardW / 2;
          isHovered = checkHover (leftHand s) x y \<or> checkHover (rightHand s) x y;
          hoveredItem' = (if isHovered then Some (trackId track) else hoveredItem)
      in if isHovered \<and> hoveredTrackId s = Some (trackId track) then
           (let elapsed = timestamp - hoverStartTime s;
                duration = 1500;
                progress = min (elapsed / duration) 1.0;
                drawn' = drawn @ [progress]
            in if progress \<ge> 1.0 then
                 (if elapsed > 1600 then (hoveredItem', drawn', s)
                  else if trackType track = UPLOAD then
                    (hoveredItem', drawn',
                     s\<lparr>fileClicks := fileClicks s + 1, hoverStartTime := timestamp - 20000\<rparr>)
                  else (hoveredItem', drawn', startLevel (trackBpm track) (trackName track) ctx s))
               else (hoveredItem', drawn', s))
         else (hoveredItem', drawn, s))"

fun menuTracks ::
  "real \<Rightarrow> real \<Rightarrow> real option \<Rightarrow> nat \<Rightarrow> Track list \<Rightarrow> string option \<times> real list \<times> saber
     \<Rightarrow> string option \<times> real list \<times> saber" where
  "menuTracks cx timestamp ctx idx [] acc = acc"
| "menuTracks cx timestamp ctx idx (t # ts) acc =
     menuTracks cx timestamp ctx (Suc idx) ts (menuTrack cx timestamp ctx idx t acc)"

text \<open>
  The value of the local \<open>isHovered\<close> of the callback for the card at index \<open>idx\<close>,
  with the hands of the state \<open>s\<close>.
\<close>

definition isHovered :: "real \<Rightarrow> saber \<Rightarrow> nat \<Rightarrow> bool" where
  "isHovered cx s idx \<longleftrightarrow>
     checkHover (leftHand s) (cx - cardW / 2) (startY + real idx * (cardH + gap))
     \<or> checkHover (rightHand s) (cx - cardW / 2) (startY + real idx * (cardH + gap))"

text \<open>\<open>updateMenu\<close> returns the progress values drawn in the frame and the new state.\<close>

definition updateMenu :: "real \<Rightarrow> real \<Rightarrow> real option \<Rightarrow> saber \<Rightarrow> real list \<times> saber" where
  "updateMenu w timestamp ctx s =
     (let cx = w / 2;
          (hoveredItem, drawn, s1) = menuTracks cx timestamp ctx 0 TRACK_LIST (None, [], s)
      in (drawn,
          case hoveredItem of
            Some item \<Rightarrow>
              if hoveredTrackId s1 \<noteq> Some item
              then s1\<lparr>hoveredTrackId := Some item, hoverStartTime := timestamp\<rparr>
              else s1
          | None \<Rightarrow> s1\<lparr>hoveredTrackId := None, hoverStartTime := 0\<rparr>))"

text \<open>One animation frame, \<open>updateGame\<close>, with everything it reads from outside.\<close>

record frame_in =
  canvasW :: real
  canvasH :: real
  timestamp :: real
  pose :: "landmark list option"
  audioCtx :: "real option"
  analysis :: analysis_in

definition updateGame :: "frame_in \<Rightarrow> saber \<Rightarrow> saber" where
  "updateGame f s =
     (let s1 = updateTracking (canvasW f) (canvasH f) (pose f) s
      in if isPlaying s1 then updateLevel (canvasW f) (canvasH f) (analysis f) s1
         else snd (updateMenu (canvasW f) (timestamp f) (audioCtx f) s1))"


text \<open>The values of the refs when the component is mounted.\<close>

definition initialHand :: SaberState where
  "initialHand = \<lparr>handX = 0, handY = 0, history = [], velocityVector = (0, 0),
                  velocityMagnitude = 0\<rparr>"

definition initial :: saber where
  "initial = \<lparr>score = 0, combo = 0, energy = 50, hitNotes = 0, totalNotes = 0, blocks = [],
              obstacles = [], leftHand = initialHand, rightHand = initialHand,
              headPos = (0.5, 0.5), bodyX = 0.5, nextNoteTime = 0, current16thNote = 0,
              timerID = None, userAudioBuffer = False, analyser = False, isPlaying = False,
              hoverStartTime = 0, hoveredTrackId = None, currentTrackName = [],
              lastSpawnTime = 0, bassHistory = [], fileClicks = 0, startCalls = [],
              gameOver = [],
              schedTrace = []\<rparr>"

text \<open>
  The states a session can reach: the scheduler interval, animation frames, the end of
  an uploaded track, a successful file upload (which starts a level at 120 BPM), and
  the activation and clean-up of the component.
\<close>

inductive reachable :: "saber \<Rightarrow> bool" where
  r_init: "reachable initial"
| r_sched: "reachable s \<Longrightarrow> timerID s = Some bpm \<Longrightarrow> scheduler bpm now rnd s = Some s'
            \<Longrightarrow> reachable s'"
| r_frame: "reachable s \<Longrightarrow> reachable (updateGame f s)"
| r_ended: "reachable s \<Longrightarrow> reachable (finishGame s)"
| r_upload: "reachable s \<Longrightarrow> reachable (startLevel 120 name ctx (s\<lparr>userAudioBuffer := True\<rparr>))"
| r_active: "reachable s \<Longrightarrow> reachable (s\<lparr>score := 0, isPlaying := False\<rparr>)"
| r_cleanup: "reachable s \<Longrightarrow> reachable (s\<lparr>timerID := None\<rparr>)"

section \<open>Cursor and dwell selection of the application shell (src/App.tsx)\<close>

text \<open>
  The smoothing of the cursor in \<open>updateMotionControl\<close>, for a window of width \<open>iw\<close>
  and height \<open>ih\<close>. Reading the visibility of a landmark that is missing throws, which
  is the result \<open>None\<close>.
\<close>

definition smoothTowards :: "real \<Rightarrow> real \<Rightarrow> landmark \<Rightarrow> real \<times> real \<Rightarrow> real \<times> real" where
  "smoothTowards iw ih activeHand c =
     (let targetX = (1 - lmX activeHand) * iw;
          targetY = lmY activeHand * ih
      in (fst c + (targetX - fst c) * 0.2, snd c + (targetY - snd c) * 0.2))"

definition cursorStep ::
  "real \<Rightarrow> real \<Rightarrow> landmark list option \<Rightarrow> real \<times> real \<Rightarrow> (real \<times> real) option" where
  "cursorStep iw ih frame c =
     (case frame of
        None \<Rightarrow> Some c
      | Some landmarks \<Rightarrow>
          (case lm_at landmarks 20 of
             None \<Rightarrow> None
           | Some r \<Rightarrow>
               if visibility r > 0.5 then Some (smoothTowards iw ih r c)
               else
                 (case lm_at landmarks 19 of
                    None \<Rightarrow> None
                  | Some l \<Rightarrow>
                      if visibility l > 0.5 then Some (smoothTowards iw ih l c)
                      else Some c)))"

text \<open>
  The state of the application shell: the React state of \<open>App\<close> and the ref
  \<open>hoverStartTimeRef\<close>. State updates are taken to be in effect at the next frame.
  \<open>reported\<close> holds every value passed to \<open>setHoverProgress\<close> and \<open>completed\<close>
  every item passed to an \<open>onComplete\<close> callback, in order. The action \<open>'MENU'\<close> of
  the game-over screen is written \<open>ACTION_MENU\<close>.
\<close>

datatype GameState = MENU | LOADING_MODEL | PLAYING | GAME_OVER

datatype GameType = DODGE | CATCH | SABER

datatype ActionType = ACTION_RETRY | ACTION_MENU









text \<open>
  What a frame of the motion control loop finds: no pose result, no visible hand, or the
  element under the smoothed cursor, which is inside a game card (an element with
  \<open>data-game-type\<close>), inside an action button (\<open>data-action-type\<close>), or elsewhere.
\<close>

datatype pointer = NoPose | NoHand | GameCard GameType | ActionButton ActionType | Elsewhere





section \<open>The note counters\<close>

text \<open>
  A block is pending while it is a regular note that is not yet hit. The invariant of
  the note counters: the notes hit so far and the pending blocks together do not
  exceed the notes spawned.
\<close>

definition pending :: "SaberBlock \<Rightarrow> nat" where
  "pending b = (if \<not> blockHit b \<and> blockType b = Normal then 1 else 0)"

definition notes_inv :: "saber \<Rightarrow> bool" where
  "notes_inv s \<longleftrightarrow> hitNotes s + sum_list (map pending (blocks s)) \<le> totalNotes s"

section \<open>Iterating the scheduler loop\<close>




section \<open>Starting a level\<close>

text \<open>
  C10: starting a new level, for every tempo and track name and from every previous
  state, sets score, combo, hitNotes and totalNotes to 0, the energy to 50, and empties
  the lists of active blocks and obstacles. The level starts when an audio context is
  at hand; without one \<open>startLevel\<close> returns before it starts anything.
\<close>

theorem startLevel_reinitializes:
  assumes "ctx = Some t" and "s' = startLevel bpm name ctx s"
  shows "score s' = 0 \<and> combo s' = 0 \<and> energy s' = 50 \<and> hitNotes s' = 0
         \<and> totalNotes s' = 0 \<and> blocks s' = [] \<and> obstacles s' = [] \<and> isPlaying s'"
  using assms by (simp add: startLevel_def Let_def)

theorem startLevel_reinitializes_witness:
  "score (startLevel 130 ''Cyber Storm'' (Some 2)
            (initial\<lparr>score := 700, combo := 3, energy := 0, hitNotes := 7, totalNotes := 9\<rparr>)) = 0
   \<and> energy (startLevel 130 ''Cyber Storm'' (Some 2)
            (initial\<lparr>score := 700, combo := 3, energy := 0, hitNotes := 7, totalNotes := 9\<rparr>)) = 50
   \<and> totalNotes (startLevel 130 ''Cyber Storm'' (Some 2)
            (initial\<lparr>score := 700, combo := 3, energy := 0, hitNotes := 7, totalNotes := 9\<rparr>)) = 0"
  using startLevel_reinitializes [where ctx = "Some 2" and t = 2 and bpm = 130
      and name = "''Cyber Storm''"
      and s = "initial\<lparr>score := 700, combo := 3, energy := 0, hitNotes := 7, totalNotes := 9\<rparr>",
      OF refl refl]
  by simp

section \<open>The grade\<close>

lemma grade_chain:
  fixes a :: real
  defines "g \<equiv> (if a \<ge> 0.90 then ''SSS''
         else if a \<ge> 0.85 then ''SS''
         else if a \<ge> 0.75 then ''S''
         else if a \<ge> 0.60 then ''A''
         else if a \<ge> 0.45 then ''B''
         else ''C'')"
  shows "g = ''SSS'' \<longleftrightarrow> a \<ge> 0.90"
    and "g = ''SS'' \<longleftrightarrow> 0.85 \<le> a \<and> a < 0.90"
    and "g = ''S'' \<longleftrightarrow> 0.75 \<le> a \<and> a < 0.85"
    and "g = ''A'' \<longleftrightarrow> 0.60 \<le> a \<and> a < 0.75"
    and "g = ''B'' \<longleftrightarrow> 0.45 \<le> a \<and> a < 0.60"
    and "g = ''C'' \<longleftrightarrow> a < 0.45"
  unfolding g_def by (simp_all split: if_splits)

lemma grade_of_positive:
  assumes "totalN > 0"
  shows "grade_of hitN totalN =
           (let a = real hitN / real totalN in
            if a \<ge> 0.90 then ''SSS''
            else if a \<ge> 0.85 then ''SS''
            else if a \<ge> 0.75 then ''S''
            else if a \<ge> 0.60 then ''A''
            else if a \<ge> 0.45 then ''B''
            else ''C'')"
  using assms unfolding grade_of_def by (simp only: if_True)

lemma finishGame_reports:
  "snd (last (gameOver (finishGame s))) = grade_of (hitNotes s) (totalNotes s)"
  by (simp add: finishGame_def)

text \<open>
  C3, as amended: for every session that ends with totalNotes > 0, the grade handed to
  \<open>onGameOver\<close> is SSS iff accuracy \<ge> 0.90, SS iff 0.85 \<le> accuracy < 0.90, S iff
  0.75 \<le> accuracy < 0.85, A iff 0.60 \<le> accuracy < 0.75, B iff 0.45 \<le> accuracy < 0.60,
  and C iff accuracy < 0.45, where accuracy = hitNotes / totalNotes; accuracy 0.90 gives
  SSS and accuracy 0.85 gives SS. A session that ends with totalNotes = 0 gets the
  grade D. The division and the comparisons are exact here; the source's double
  arithmetic agrees with them for counters far beyond any session.
\<close>

theorem finishGame_grade:
  assumes "g = snd (last (gameOver (finishGame s)))"
    and "accuracy = real (hitNotes s) / real (totalNotes s)"
  shows "(totalNotes s > 0 \<longrightarrow>
            (g = ''SSS'' \<longleftrightarrow> accuracy \<ge> 0.90)
          \<and> (g = ''SS'' \<longleftrightarrow> 0.85 \<le> accuracy \<and> accuracy < 0.90)
          \<and> (g = ''S'' \<longleftrightarrow> 0.75 \<le> accuracy \<and> accuracy < 0.85)
          \<and> (g = ''A'' \<longleftrightarrow> 0.60 \<le> accuracy \<and> accuracy < 0.75)
          \<and> (g = ''B'' \<longleftrightarrow> 0.45 \<le> accuracy \<and> accuracy < 0.60)
          \<and> (g = ''C'' \<longleftrightarrow> accuracy < 0.45)
          \<and> (accuracy = 0.90 \<longrightarrow> g = ''SSS'')
          \<and> (accuracy = 0.85 \<longrightarrow> g = ''SS''))
       \<and> (totalNotes s = 0 \<longrightarrow> g = ''D'')"
proof (cases "totalNotes s > 0")
  case True
  have "g = (if accuracy \<ge> 0.90 then ''SSS''
         else if accuracy \<ge> 0.85 then ''SS''
         else if accuracy \<ge> 0.75 then ''S''
         else if accuracy \<ge> 0.60 then ''A''
         else if accuracy \<ge> 0.45 then ''B''
         else ''C'')"
    using assms grade_of_positive [OF True, of "hitNotes s"]
    by (simp only: finishGame_reports Let_def)
  then show ?thesis
    using True grade_chain [of accuracy] by simp
next
  case False
  then have "g = ''D''"
    using assms(1) by (simp add: finishGame_reports grade_of_def)
  then show ?thesis
    using False by simp
qed

theorem finishGame_grade_witness:
  "snd (last (gameOver (finishGame (initial\<lparr>hitNotes := 9, totalNotes := 10\<rparr>)))) = ''SSS''
   \<and> snd (last (gameOver (finishGame (initial\<lparr>hitNotes := 17, totalNotes := 20\<rparr>)))) = ''SS''
   \<and> snd (last (gameOver (finishGame (initial\<lparr>hitNotes := 0, totalNotes := 0\<rparr>)))) = ''D''"
proof -
  have "snd (last (gameOver (finishGame (initial\<lparr>hitNotes := 9, totalNotes := 10\<rparr>)))) = ''SSS''"
    using finishGame_grade [OF refl refl, of "initial\<lparr>hitNotes := 9, totalNotes := 10\<rparr>"]
    by simp
  moreover
  have "snd (last (gameOver (finishGame (initial\<lparr>hitNotes := 17, totalNotes := 20\<rparr>)))) = ''SS''"
    using finishGame_grade [OF refl refl, of "initial\<lparr>hitNotes := 17, totalNotes := 20\<rparr>"]
    by simp
  moreover
  have "snd (last (gameOver (finishGame (initial\<lparr>hitNotes := 0, totalNotes := 0\<rparr>)))) = ''D''"
    using finishGame_grade [OF refl refl, of "initial\<lparr>hitNotes := 0, totalNotes := 0\<rparr>"]
    by simp
  ultimately show ?thesis by simp
qed

text \<open>
  The claim as stated fails for a session that ends before any note was spawned: its
  grade is D, which is none of the six grades of the claim.
\<close>

theorem finishGame_grade_no_notes:
  "totalNotes initial = 0
   \<and> snd (last (gameOver (finishGame initial))) = ''D''
   \<and> snd (last (gameOver (finishGame initial))) \<notin> {''SSS'', ''SS'', ''S'', ''A'', ''B'', ''C''}"
  by (simp add: finishGame_def grade_of_def initial_def)

section \<open>The judgement of one block\<close>

lemma in_window_not_expired:
  "HIT_WINDOW_Z_NEAR < zz \<Longrightarrow> \<not> zz < - 250"
  by (simp add: HIT_WINDOW_Z_NEAR_def)

lemma updateBlock_in_window:
  assumes "\<not> blockRemove b" "\<not> blockHit b"
    and "HIT_WINDOW_Z_NEAR < blockZ b - GAME_SPEED" "blockZ b - GAME_SPEED < HIT_WINDOW_Z_FAR"
    and "proj = project ((gridX b - 1.5) * GRID_X_SPACING) ((1 - gridY b) * GRID_Y_SPACING)
                   (blockZ b - GAME_SPEED) cx cy"
  shows "updateBlock cx cy b s =
           judgeBlock (fst proj) (fst (snd proj)) (BLOCK_SIZE * snd (snd proj))
             (b\<lparr>blockZ := blockZ b - GAME_SPEED\<rparr>) s"
proof -
  have z: "blockZ (fst (judgeBlock px py sz (b\<lparr>blockZ := blockZ b - GAME_SPEED\<rparr>) s))
             = blockZ b - GAME_SPEED" for px py sz
    by (simp add: judgeBlock_def Let_def split: option.split)
  show ?thesis
    using assms in_window_not_expired [OF assms(3)] z
    by (simp add: updateBlock_def Let_def split_beta)
qed

lemma judgeBlock_bomb:
  assumes "blockType b = Bomb"
  shows "judgeBlock px py sz b s =
          (if hitCheck (leftHand s) px py sz \<or> hitCheck (rightHand s) px py sz
           then (b\<lparr>blockHit := True\<rparr>,
                 if max 0 (energy s - 15) \<le> 0
                 then finishGame (s\<lparr>energy := max 0 (energy s - 15), combo := 0\<rparr>)
                 else s\<lparr>energy := max 0 (energy s - 15), combo := 0\<rparr>)
           else (b, s))"
  using assms by (simp add: judgeBlock_def Let_def)

lemma updateBlock_outside_window:
  assumes "\<not> blockRemove b"
    and "\<not> (HIT_WINDOW_Z_NEAR < blockZ b - GAME_SPEED \<and> blockZ b - GAME_SPEED < HIT_WINDOW_Z_FAR)"
  shows "updateBlock cx cy b s =
           (if blockZ b - GAME_SPEED < - 250
            then expireBlock (b\<lparr>blockZ := blockZ b - GAME_SPEED\<rparr>) s
            else (b\<lparr>blockZ := blockZ b - GAME_SPEED\<rparr>, s))"
  using assms by (auto simp: updateBlock_def Let_def)

lemma updateBlock_already_hit:
  assumes "\<not> blockRemove b" and "blockHit b"
  shows "updateBlock cx cy b s =
           (if blockZ b - GAME_SPEED < - 250
            then expireBlock (b\<lparr>blockZ := blockZ b - GAME_SPEED\<rparr>) s
            else (b\<lparr>blockZ := blockZ b - GAME_SPEED\<rparr>, s))"
  using assms by (simp add: updateBlock_def Let_def)

text \<open>
  C7: for a regular note that requires the left hand (a red block; lane (2,0) is one
  instance), when the left hand is within the proximity threshold while the note is in
  the hittable depth window, the note becomes hit, the score grows by 100, plus 10 when
  the combo before the hit exceeds 10, the combo grows by 1 (from 0 to 1), hitNotes
  grows by 1, and the energy grows by 4, capped at 100. Only the hand designated by the
  colour counts (the left hand for red, the right hand for blue): when that hand is not
  within the threshold, the note stays unhit and the state is unchanged, wherever the
  other hand is.
\<close>

theorem regular_note_hit:
  assumes "blockType b = Normal" and "\<not> blockRemove b" and "\<not> blockHit b"
    and "HIT_WINDOW_Z_NEAR < blockZ b - GAME_SPEED" and "blockZ b - GAME_SPEED < HIT_WINDOW_Z_FAR"
    and "proj = project ((gridX b - 1.5) * GRID_X_SPACING) ((1 - gridY b) * GRID_Y_SPACING)
                   (blockZ b - GAME_SPEED) cx cy"
    and "touch = (\<lambda>hand. hitCheck hand (fst proj) (fst (snd proj)) (BLOCK_SIZE * snd (snd proj)))"
    and "designated = (if color b = Red then leftHand s else rightHand s)"
    and "(b', s') = updateBlock cx cy b s"
  shows "(touch designated \<longrightarrow>
           blockHit b'
           \<and> score s' = score s + 100 + (if combo s > 10 then 10 else 0)
           \<and> combo s' = combo s + 1
           \<and> hitNotes s' = hitNotes s + 1
           \<and> energy s' = min 100 (energy s + 4))
       \<and> (\<not> touch designated \<longrightarrow> \<not> blockHit b' \<and> s' = s)"
proof -
  have eq: "(b', s') = judgeBlock (fst proj) (fst (snd proj)) (BLOCK_SIZE * snd (snd proj))
             (b\<lparr>blockZ := blockZ b - GAME_SPEED\<rparr>) s"
    using assms(9) updateBlock_in_window [OF assms(2,3,4,5,6)] by simp
  have "touch designated \<longrightarrow>
           blockHit b'
           \<and> score s' = score s + 100 + (if combo s > 10 then 10 else 0)
           \<and> combo s' = combo s + 1
           \<and> hitNotes s' = hitNotes s + 1
           \<and> energy s' = min 100 (energy s + 4)"
    using eq assms(1,7,8) by (cases "color b") (auto simp: judgeBlock_def Let_def)
  moreover have "\<not> touch designated \<longrightarrow> \<not> blockHit b' \<and> s' = s"
    using eq assms(1,3,7,8) by (cases "color b") (auto simp: judgeBlock_def Let_def)
  ultimately show ?thesis by simp
qed

theorem regular_note_hit_witness:
  "case updateBlock 640 360
          \<lparr>blockId = 0, gridX = 2, gridY = 0, blockZ = 22, color = Red, blockType = Normal,
           direction = Some DOT, blockHit = False, cutAngle = None, blockRemove = False\<rparr>
          (initial\<lparr>leftHand := initialHand\<lparr>handX := 1140, handY := 600\<rparr>\<rparr>)
   of (b', s') \<Rightarrow> blockHit b' \<and> score s' = 100 \<and> combo s' = 1 \<and> hitNotes s' = 1 \<and> energy s' = 54"
proof -
  let ?b = "\<lparr>blockId = 0, gridX = 2, gridY = 0, blockZ = 22, color = Red, blockType = Normal,
           direction = Some DOT, blockHit = False, cutAngle = None, blockRemove = False\<rparr>"
  let ?s = "initial\<lparr>leftHand := initialHand\<lparr>handX := 1140, handY := 600\<rparr>\<rparr>"
  obtain b' s' where u: "(b', s') = updateBlock 640 360 ?b ?s"
    by (metis surj_pair)
  have pr: "project ((gridX ?b - 1.5) * GRID_X_SPACING) ((1 - gridY ?b) * GRID_Y_SPACING)
              (blockZ ?b - GAME_SPEED) 640 360 = (1140, 600, 1)"
    by (simp add: project_def GRID_X_SPACING_def GRID_Y_SPACING_def GAME_SPEED_def
        FOCAL_LENGTH_def)
  have t: "hitCheck (leftHand ?s) 1140 600 (BLOCK_SIZE * 1)"
    by (simp add: hitCheck_def BLOCK_SIZE_def)
  have w1: "HIT_WINDOW_Z_NEAR < blockZ ?b - GAME_SPEED"
    and w2: "blockZ ?b - GAME_SPEED < HIT_WINDOW_Z_FAR"
    by (simp_all add: HIT_WINDOW_Z_NEAR_def HIT_WINDOW_Z_FAR_def GAME_SPEED_def)
  have i: "score ?s = 0" "combo ?s = 0" "hitNotes ?s = 0" "energy ?s = 50"
    by (simp_all add: initial_def)
  have c: "color ?b = Red" "blockType ?b = Normal" "\<not> blockRemove ?b" "\<not> blockHit ?b"
    by simp_all
  have "blockHit b' \<and> score s' = 100 \<and> combo s' = 1 \<and> hitNotes s' = 1 \<and> energy s' = 54"
    using regular_note_hit [OF c(2,3,4) w1 w2 pr [symmetric] refl refl u] t
    by (simp only: c i fst_conv snd_conv if_True) simp
  then show ?thesis
    unfolding u [symmetric] by simp
qed

text \<open>
  C8: for a hazard note that is not yet hit: when either hand is within the proximity
  threshold while the note is in the hittable window, the note becomes hit, the energy
  drops by 15 (not below 0), the combo is 0, and if the resulting energy is \<le> 0 the
  session is finished at once (\<open>finishGame\<close> runs: not playing, \<open>onGameOver\<close>
  called). A hazard note that is not touched changes nothing in the state, and is
  removed exactly when its depth passes -250.
\<close>

theorem hazard_note:
  assumes "blockType b = Bomb" and "\<not> blockRemove b" and "\<not> blockHit b"
    and "proj = project ((gridX b - 1.5) * GRID_X_SPACING) ((1 - gridY b) * GRID_Y_SPACING)
                   (blockZ b - GAME_SPEED) cx cy"
    and "touch = (\<lambda>hand. hitCheck hand (fst proj) (fst (snd proj)) (BLOCK_SIZE * snd (snd proj)))"
    and "inWindow = (HIT_WINDOW_Z_NEAR < blockZ b - GAME_SPEED
                       \<and> blockZ b - GAME_SPEED < HIT_WINDOW_Z_FAR)"
    and "(b', s') = updateBlock cx cy b s"
  shows "(inWindow \<and> (touch (leftHand s) \<or> touch (rightHand s)) \<longrightarrow>
            blockHit b' \<and> energy s' = max 0 (energy s - 15) \<and> combo s' = 0 \<and> score s' = score s
            \<and> (energy s' \<le> 0 \<longrightarrow>
                  \<not> isPlaying s'
                  \<and> gameOver s' = gameOver s @ [(score s, grade_of (hitNotes s) (totalNotes s))])
            \<and> (energy s' > 0 \<longrightarrow> isPlaying s' = isPlaying s \<and> gameOver s' = gameOver s))
       \<and> (\<not> (inWindow \<and> (touch (leftHand s) \<or> touch (rightHand s))) \<longrightarrow>
            \<not> blockHit b' \<and> s' = s \<and> (blockRemove b' \<longleftrightarrow> blockZ b - GAME_SPEED < - 250))"
proof (cases inWindow)
  case True
  then have w: "HIT_WINDOW_Z_NEAR < blockZ b - GAME_SPEED" "blockZ b - GAME_SPEED < HIT_WINDOW_Z_FAR"
    using assms(6) by simp_all
  have eq: "(b', s') = judgeBlock (fst proj) (fst (snd proj)) (BLOCK_SIZE * snd (snd proj))
             (b\<lparr>blockZ := blockZ b - GAME_SPEED\<rparr>) s"
    using assms(7) updateBlock_in_window [OF assms(2,3) w assms(4)] by simp
  have bomb: "blockType (b\<lparr>blockZ := blockZ b - GAME_SPEED\<rparr>) = Bomb"
    using assms(1) by simp
  have nx: "\<not> blockZ b - GAME_SPEED < - 250"
    using in_window_not_expired [OF w(1)] .
  show ?thesis
    using eq True assms(2,3,5) nx unfolding judgeBlock_bomb [OF bomb]
    by (auto simp: finishGame_def split: if_splits)
next
  case False
  then have nw: "\<not> (HIT_WINDOW_Z_NEAR < blockZ b - GAME_SPEED
                    \<and> blockZ b - GAME_SPEED < HIT_WINDOW_Z_FAR)"
    using assms(6) by simp
  show ?thesis
    using assms(7) False assms(1,2,3) unfolding updateBlock_outside_window [OF assms(2) nw]
    by (auto simp: expireBlock_def split: if_splits)
qed

theorem hazard_note_witness:
  "case updateBlock 640 360
          \<lparr>blockId = 0, gridX = 1, gridY = 1, blockZ = 22, color = Red, blockType = Bomb,
           direction = Some DOT, blockHit = False, cutAngle = None, blockRemove = False\<rparr>
          (initial\<lparr>rightHand := initialHand\<lparr>handX := 140, handY := 360\<rparr>, energy := 10,
                   combo := 3, isPlaying := True\<rparr>)
   of (b', s') \<Rightarrow> blockHit b' \<and> energy s' = 0 \<and> combo s' = 0 \<and> \<not> isPlaying s'
                  \<and> gameOver s' = [(0, ''D'')]"
proof -
  let ?b = "\<lparr>blockId = 0, gridX = 1, gridY = 1, blockZ = 22, color = Red, blockType = Bomb,
           direction = Some DOT, blockHit = False, cutAngle = None, blockRemove = False\<rparr>"
  let ?s = "initial\<lparr>rightHand := initialHand\<lparr>handX := 140, handY := 360\<rparr>, energy := 10,
                   combo := 3, isPlaying := True\<rparr>"
  obtain b' s' where u: "(b', s') = updateBlock 640 360 ?b ?s"
    by (metis surj_pair)
  have pr: "project ((gridX ?b - 1.5) * GRID_X_SPACING) ((1 - gridY ?b) * GRID_Y_SPACING)
              (blockZ ?b - GAME_SPEED) 640 360 = (140, 360, 1)"
    by (simp add: project_def GRID_X_SPACING_def GRID_Y_SPACING_def GAME_SPEED_def
        FOCAL_LENGTH_def)
  have t: "hitCheck (rightHand ?s) 140 360 (BLOCK_SIZE * 1)"
    by (simp add: hitCheck_def BLOCK_SIZE_def)
  have w: "(HIT_WINDOW_Z_NEAR < blockZ ?b - GAME_SPEED \<and> blockZ ?b - GAME_SPEED < HIT_WINDOW_Z_FAR)
             = True"
    by (simp add: HIT_WINDOW_Z_NEAR_def HIT_WINDOW_Z_FAR_def GAME_SPEED_def)
  have i: "score ?s = 0" "hitNotes ?s = 0" "totalNotes ?s = 0" "energy ?s = 10" "gameOver ?s = []"
    by (simp_all add: initial_def)
  have c: "blockType ?b = Bomb" "\<not> blockRemove ?b" "\<not> blockHit ?b"
    by simp_all
  have g: "grade_of 0 0 = ''D''"
    by (simp add: grade_of_def)
  have "blockHit b' \<and> energy s' = 0 \<and> combo s' = 0 \<and> \<not> isPlaying s' \<and> gameOver s' = [(0, ''D'')]"
    using hazard_note [OF c pr [symmetric] refl w [symmetric] u] t
    by (simp only: i g fst_conv snd_conv) simp
  then show ?thesis
    unfolding u [symmetric] by simp
qed

text \<open>
  C2: in the step of one block, the combo is 0 right after a hazard hit and right after
  a miss (a regular note removed unhit), it is exactly one more than before right after
  a regular hit, and it is unchanged when none of these happens.
\<close>

theorem combo_steps:
  assumes "\<not> blockRemove b" and "(b', s') = updateBlock cx cy b s"
    and "hazardHit = (blockType b = Bomb \<and> \<not> blockHit b \<and> blockHit b')"
    and "regularHit = (blockType b = Normal \<and> \<not> blockHit b \<and> blockHit b')"
    and "miss = (blockType b = Normal \<and> \<not> blockHit b' \<and> blockRemove b')"
  shows "(hazardHit \<longrightarrow> combo s' = 0)
       \<and> (miss \<longrightarrow> combo s' = 0)
       \<and> (regularHit \<longrightarrow> combo s' = combo s + 1)
       \<and> (\<not> hazardHit \<and> \<not> miss \<and> \<not> regularHit \<longrightarrow> combo s' = combo s)"
proof (cases "blockHit b")
  case True
  show ?thesis
    using assms(2,3,4,5) True unfolding updateBlock_already_hit [OF assms(1) True]
    by (auto simp: expireBlock_def split: if_splits)
next
  case nh: False
  show ?thesis
  proof (cases "HIT_WINDOW_Z_NEAR < blockZ b - GAME_SPEED \<and> blockZ b - GAME_SPEED < HIT_WINDOW_Z_FAR")
    case True
    then have w: "HIT_WINDOW_Z_NEAR < blockZ b - GAME_SPEED" "blockZ b - GAME_SPEED < HIT_WINDOW_Z_FAR"
      by simp_all
    have nx: "\<not> blockZ b - GAME_SPEED < - 250"
      using in_window_not_expired [OF w(1)] .
    show ?thesis
      using assms(1,2,3,4,5) nh nx unfolding updateBlock_in_window [OF assms(1) nh w refl]
      by (cases "blockType b"; cases "color b")
         (auto simp: judgeBlock_def Let_def finishGame_def split: if_splits)
  next
    case False
    show ?thesis
      using assms(1,2,3,4,5) nh unfolding updateBlock_outside_window [OF assms(1) False]
      by (cases "blockType b") (auto simp: expireBlock_def Let_def finishGame_def split: if_splits)
  qed
qed

theorem combo_steps_witness:
  "case updateBlock 640 360
          \<lparr>blockId = 0, gridX = 2, gridY = 0, blockZ = - 240, color = Blue, blockType = Normal,
           direction = Some UP, blockHit = False, cutAngle = None, blockRemove = False\<rparr>
          (initial\<lparr>combo := 7\<rparr>)
   of (b', s') \<Rightarrow> blockRemove b' \<and> \<not> blockHit b' \<and> combo s' = 0"
proof -
  let ?b = "\<lparr>blockId = 0, gridX = 2, gridY = 0, blockZ = - 240, color = Blue, blockType = Normal,
           direction = Some UP, blockHit = False, cutAngle = None, blockRemove = False\<rparr>"
  let ?s = "initial\<lparr>combo := 7\<rparr>"
  obtain b' s' where u: "(b', s') = updateBlock 640 360 ?b ?s"
    by (metis surj_pair)
  have c: "\<not> blockRemove ?b" "blockType ?b = Normal"
    by simp_all
  have nw: "\<not> (HIT_WINDOW_Z_NEAR < blockZ ?b - GAME_SPEED \<and> blockZ ?b - GAME_SPEED < HIT_WINDOW_Z_FAR)"
    by (simp add: HIT_WINDOW_Z_NEAR_def GAME_SPEED_def)
  have r: "blockRemove b' \<and> \<not> blockHit b'"
    using u unfolding updateBlock_outside_window [OF c(1) nw]
    by (simp add: GAME_SPEED_def expireBlock_def)
  then have "combo s' = 0"
    using combo_steps [OF c(1) u refl refl refl] c(2) by simp
  then show ?thesis
    using r unfolding u [symmetric] by simp
qed

section \<open>The energy\<close>

text \<open>
  C1: the energy is to lie in [0,100] after every single update. The hit, hazard and
  miss updates clamp it; the obstacle collision subtracts 10 without a clamp. At energy
  2, which six misses from the initial 50 produce, one frame in which a left wall
  reaches a player leaning left takes the energy to -8.
\<close>

theorem obstacle_hit_energy_negative:
  "energy (updateLevel 1280 720
             \<lparr>freqData = [], perfNow = 0, perfNowAfter = 0, rSecond = 0, rId1 = 0, rDir1 = 0,
              rId2 = 0, rDir2 = 0\<rparr>
             (initial\<lparr>isPlaying := True, energy := 2, bodyX := 0.3,
                      obstacles := [\<lparr>obsId = 0, obsType = WALL_LEFT, obsZ = 100, duration = 400,
                                     obsHit = False, obsRemove = False\<rparr>]\<rparr>)) = - 8"
  by (simp add: updateLevel_def updateObstacle_def initial_def Let_def GAME_SPEED_def)

section \<open>Tracked points\<close>

lemma updateHand_visible:
  assumes "visibility p > 0.5"
  shows "handX (updateHand w h (Some p) hand) = (1 - lmX p) * w"
    and "handY (updateHand w h (Some p) hand) = lmY p * h"
  using assms by (simp_all add: updateHand_def Let_def)

lemma updateHand_lost:
  assumes "\<not> visibility p > 0.5"
  shows "updateHand w h (Some p) hand = hand"
  using assms by (simp add: updateHand_def)

text \<open>
  C6, as amended: a hand of the Saber game whose landmark has visibility > 0.5 is set to
  the target of the frame itself, with the horizontal axis mirrored and no smoothing;
  the cursor of the application shell follows the first of the landmarks 20 and 19
  whose visibility is > 0.5 by current += (target - current) * 0.2, with the horizontal
  axis mirrored; with a visibility \<le> 0.5, or without a frame, the stored position is
  left unchanged.
\<close>

theorem tracked_point_update:
  "(visibility p > 0.5 \<longrightarrow>
      handX (updateHand w h (Some p) hand) = (1 - lmX p) * w
      \<and> handY (updateHand w h (Some p) hand) = lmY p * h)
   \<and> (visibility p \<le> 0.5 \<longrightarrow> updateHand w h (Some p) hand = hand)
   \<and> updateHand w h None hand = hand
   \<and> updateTracking w h None s = s
   \<and> (lm_at lms 20 = Some r \<and> visibility r > 0.5 \<longrightarrow>
        cursorStep iw ih (Some lms) c =
          Some (fst c + ((1 - lmX r) * iw - fst c) * 0.2, snd c + (lmY r * ih - snd c) * 0.2))
   \<and> (lm_at lms 20 = Some r \<and> visibility r \<le> 0.5 \<and> lm_at lms 19 = Some l \<and> visibility l > 0.5 \<longrightarrow>
        cursorStep iw ih (Some lms) c =
          Some (fst c + ((1 - lmX l) * iw - fst c) * 0.2, snd c + (lmY l * ih - snd c) * 0.2))
   \<and> (lm_at lms 20 = Some r \<and> visibility r \<le> 0.5 \<and> lm_at lms 19 = Some l \<and> visibility l \<le> 0.5 \<longrightarrow>
        cursorStep iw ih (Some lms) c = Some c)
   \<and> cursorStep iw ih None c = Some c"
  by (simp add: updateHand_visible updateHand_lost updateTracking_def cursorStep_def
      smoothTowards_def Let_def updateHand_def)

theorem tracked_point_update_witness:
  "handX (updateHand 1000 800 (Some \<lparr>lmX = 0.25, lmY = 0.5, visibility = 0.9\<rparr>) initialHand) = 750
   \<and> updateHand 1000 800 (Some \<lparr>lmX = 0.25, lmY = 0.5, visibility = 0.3\<rparr>) initialHand = initialHand
   \<and> cursorStep 1000 800 (Some (replicate 33 \<lparr>lmX = 0.25, lmY = 0.5, visibility = 0.9\<rparr>)) (0, 0)
       = Some (150, 80)"
proof -
  let ?p = "\<lparr>lmX = 0.25, lmY = 0.5, visibility = 0.9\<rparr>"
  let ?q = "\<lparr>lmX = 0.25, lmY = 0.5, visibility = 0.3\<rparr>"
  have a: "lm_at (replicate 33 ?p) 20 = Some ?p"
    by (simp add: lm_at_def)
  have v: "visibility ?p > 0.5" "visibility ?q \<le> 0.5"
    by simp_all
  have "handX (updateHand 1000 800 (Some ?p) initialHand) = 750"
    using tracked_point_update [of ?p 1000 800 initialHand] v(1) by simp
  moreover have "updateHand 1000 800 (Some ?q) initialHand = initialHand"
    using tracked_point_update [of ?q 1000 800 initialHand] v(2) by simp
  moreover have "cursorStep 1000 800 (Some (replicate 33 ?p)) (0, 0) = Some (150, 80)"
    using tracked_point_update [of ?p _ _ _ _ "replicate 33 ?p" ?p 1000 800 "(0, 0)"] a v(1)
    by simp
  ultimately show ?thesis by simp
qed

text \<open>
  The claim as stated fails at a visibility of exactly 0.5, where neither the hand nor
  the cursor moves towards a target that differs from the stored position, and for a
  visible hand of the Saber game, which jumps from 0 to the target 750 in one frame.
\<close>

theorem tracked_point_threshold_counterexample:
  "updateHand 1000 800 (Some \<lparr>lmX = 0.25, lmY = 0.5, visibility = 0.5\<rparr>) initialHand = initialHand
   \<and> cursorStep 1000 800 (Some (replicate 33 \<lparr>lmX = 0.25, lmY = 0.5, visibility = 0.5\<rparr>)) (0, 0)
       = Some (0, 0)
   \<and> handX (updateHand 1000 800 (Some \<lparr>lmX = 0.25, lmY = 0.5, visibility = 0.9\<rparr>) initialHand)
       = (1 - 0.25) * 1000"
  by (simp add: updateHand_def cursorStep_def lm_at_def Let_def initialHand_def)

section \<open>The note counters are consistent\<close>

lemma spawnBlock_notes:
  "hitNotes (spawnBlock gx gy col ty rid rdir s) = hitNotes s"
  "totalNotes (spawnBlock gx gy col ty rid rdir s) = totalNotes s + (if ty = Normal then 1 else 0)"
  "sum_list (map pending (blocks (spawnBlock gx gy col ty rid rdir s)))
     = sum_list (map pending (blocks s)) + (if ty = Normal then 1 else 0)"
  by (simp_all add: spawnBlock_def Let_def pending_def)

lemma spawnBlock_inv: "notes_inv s \<Longrightarrow> notes_inv (spawnBlock gx gy col ty rid rdir s)"
  unfolding notes_inv_def spawnBlock_notes by simp

lemma spawnWall_inv: "notes_inv s \<Longrightarrow> notes_inv (spawnWall ty rid s)"
  by (simp add: notes_inv_def spawnWall_def)

lemma notes_inv_cong:
  "hitNotes s' = hitNotes s \<Longrightarrow> totalNotes s' = totalNotes s \<Longrightarrow> blocks s' = blocks s
   \<Longrightarrow> notes_inv s' = notes_inv s"
  by (simp add: notes_inv_def)

lemma subdivision_inv:
  assumes "notes_inv s"
  shows "notes_inv (subdivision bpm r s)"
proof -
  have t: "notes_inv (s\<lparr>schedTrace := tr\<rparr>)" for tr
    using assms by (simp add: notes_inv_def)
  have k: "notes_inv x \<Longrightarrow> notes_inv (if c then spawnBlock gx gy col ty rid rdir x else x)"
    for x c gx gy col ty rid rdir
    by (simp add: spawnBlock_inv)
  have w: "notes_inv x \<Longrightarrow> notes_inv (if c then spawnWall ty rid x else x)" for x c ty rid
    by (simp add: spawnWall_inv)
  have f: "notes_inv x \<Longrightarrow> notes_inv (x\<lparr>nextNoteTime := a, current16thNote := b\<rparr>)" for x a b
    by (simp add: notes_inv_def)
  show ?thesis
    unfolding subdivision_def Let_def
    by (intro f w k t)
qed

lemma scheduler_loop_inv:
  "scheduler_loop bpm now rnd k s = Some s' \<Longrightarrow> notes_inv s \<Longrightarrow> notes_inv s'"
proof (induction rule: scheduler_loop.raw_induct [rotated 1, consumes 1, case_names step])
  case (step loop bpm now rnd k s s')
  show ?case
  proof (cases "nextNoteTime s < dadd now scheduleAhead")
    case True
    then have "loop bpm now rnd (Suc k) (subdivision bpm (rnd k) s) = Some s'"
      using step.hyps by simp
    then show ?thesis
      using step.IH subdivision_inv [OF step.prems] by blast
  next
    case False
    then show ?thesis
      using step.hyps step.prems by simp
  qed
qed

lemma finishGame_notes:
  "hitNotes (finishGame s) = hitNotes s" "totalNotes (finishGame s) = totalNotes s"
  "blocks (finishGame s) = blocks s"
  by (simp_all add: finishGame_def)

lemma judgeBlock_count:
  assumes "judgeBlock px py sz b s = (b', s')" and "\<not> blockHit b"
  shows "hitNotes s' + pending b' = hitNotes s + pending b \<and> totalNotes s' = totalNotes s"
proof (cases "blockType b")
  case Bomb
  then show ?thesis
    using assms unfolding judgeBlock_bomb [OF Bomb]
    by (auto simp: pending_def finishGame_notes split: if_splits)
next
  case Normal
  show ?thesis
  proof (cases "(if color b = Blue \<and> hitCheck (rightHand s) px py sz then Some (rightHand s)
                 else if color b = Red \<and> hitCheck (leftHand s) px py sz then Some (leftHand s)
                 else None)")
    case None
    then have "judgeBlock px py sz b s = (b, s)"
      using Normal by (simp add: judgeBlock_def Let_def split: if_splits)
    then show ?thesis using assms by simp
  next
    case (Some hand)
    then have "judgeBlock px py sz b s =
        (b\<lparr>blockHit := True,
           cutAngle := Some (atan2 (snd (velocityVector hand)) (fst (velocityVector hand)))\<rparr>,
         s\<lparr>hitNotes := hitNotes s + 1,
           score := score s + (100 + (if combo s > 10 then 10 else 0)),
           combo := combo s + 1,
           energy := min 100 (energy s + 4)\<rparr>)"
      using Normal by (simp add: judgeBlock_def Let_def split: if_splits)
    then have "b' = b\<lparr>blockHit := True,
           cutAngle := Some (atan2 (snd (velocityVector hand)) (fst (velocityVector hand)))\<rparr>"
      and "hitNotes s' = hitNotes s + 1" and "totalNotes s' = totalNotes s"
      using assms(1) by auto
    then show ?thesis
      using Normal assms(2) by (simp add: pending_def)
  qed
qed

lemma expireBlock_count:
  assumes "expireBlock b s = (b', s')"
  shows "hitNotes s' = hitNotes s \<and> pending b' = pending b \<and> totalNotes s' = totalNotes s
         \<and> blockHit b' = blockHit b"
  using assms
  by (auto simp: expireBlock_def Let_def pending_def finishGame_notes split: if_splits)

lemma updateBlock_count:
  assumes "updateBlock cx cy b s = (b', s')"
  shows "hitNotes s' + pending b' = hitNotes s + pending b \<and> totalNotes s' = totalNotes s"
proof (cases "blockRemove b")
  case True
  then show ?thesis using assms by (simp add: updateBlock_def)
next
  case False
  define b1 where "b1 = b\<lparr>blockZ := blockZ b - GAME_SPEED\<rparr>"
  define proj where "proj = project ((gridX b1 - 1.5) * GRID_X_SPACING)
      ((1 - gridY b1) * GRID_Y_SPACING) (blockZ b1) cx cy"
  define mid where "mid = (if \<not> blockHit b1 \<and> blockZ b1 < HIT_WINDOW_Z_FAR
                              \<and> blockZ b1 > HIT_WINDOW_Z_NEAR
                           then judgeBlock (fst proj) (fst (snd proj)) (BLOCK_SIZE * snd (snd proj)) b1 s
                           else (b1, s))"
  have p1: "pending b1 = pending b" by (simp add: pending_def b1_def)
  obtain b2 s2 where j: "mid = (b2, s2)"
    by (metis surj_pair)
  have c2: "hitNotes s2 + pending b2 = hitNotes s + pending b \<and> totalNotes s2 = totalNotes s"
  proof (cases "\<not> blockHit b1 \<and> blockZ b1 < HIT_WINDOW_Z_FAR \<and> blockZ b1 > HIT_WINDOW_Z_NEAR")
    case True
    then have nh: "\<not> blockHit b1" by simp
    from True j have "judgeBlock (fst proj) (fst (snd proj)) (BLOCK_SIZE * snd (snd proj)) b1 s
                       = (b2, s2)"
      unfolding mid_def by simp
    from judgeBlock_count [OF this nh] p1 show ?thesis by simp
  next
    case False
    with j have "(b1, s) = (b2, s2)" unfolding mid_def by simp
    then show ?thesis using p1 by auto
  qed
  have "updateBlock cx cy b s = (if blockZ (fst mid) < - 250 then expireBlock (fst mid) (snd mid)
                                 else (fst mid, snd mid))"
    using False unfolding updateBlock_def mid_def proj_def b1_def Let_def
    by (simp add: split_beta)
  then have e: "(b', s') = (if blockZ b2 < - 250 then expireBlock b2 s2 else (b2, s2))"
    using assms j by simp
  show ?thesis
  proof (cases "blockZ b2 < - 250")
    case True
    then have "expireBlock b2 s2 = (b', s')" using e by simp
    from expireBlock_count [OF this] c2 show ?thesis by simp
  next
    case False
    then show ?thesis using e c2 by simp
  qed
qed

lemma updateBlocks_count:
  "updateBlocks cx cy bs s = (bs', s') \<Longrightarrow>
     hitNotes s' + sum_list (map pending bs') = hitNotes s + sum_list (map pending bs)
     \<and> totalNotes s' = totalNotes s"
proof (induction bs arbitrary: s bs' s')
  case Nil
  then show ?case by simp
next
  case (Cons b bs)
  obtain b1 s1 where u: "updateBlock cx cy b s = (b1, s1)" by (metis surj_pair)
  obtain bs2 s2 where r: "updateBlocks cx cy bs s1 = (bs2, s2)" by (metis surj_pair)
  have "bs' = b1 # bs2" "s' = s2"
    using Cons.prems u r by simp_all
  then show ?case
    using updateBlock_count [OF u] Cons.IH [OF r] by simp
qed

lemma pending_filter: "sum_list (map pending (filter P bs)) \<le> sum_list (map pending bs)"
  by (induction bs) auto

lemma updateObstacle_notes:
  "updateObstacle ob s = (ob', s') \<Longrightarrow>
     hitNotes s' = hitNotes s \<and> totalNotes s' = totalNotes s \<and> blocks s' = blocks s"
  by (auto simp: updateObstacle_def Let_def split: if_splits)

lemma updateObstacles_notes:
  "updateObstacles os s = (os', s') \<Longrightarrow>
     hitNotes s' = hitNotes s \<and> totalNotes s' = totalNotes s \<and> blocks s' = blocks s"
proof (induction os arbitrary: s os' s')
  case Nil
  then show ?case by simp
next
  case (Cons ob os)
  obtain o1 s1 where u: "updateObstacle ob s = (o1, s1)" by (metis surj_pair)
  obtain os2 s2 where r: "updateObstacles os s1 = (os2, s2)" by (metis surj_pair)
  have "s' = s2" using Cons.prems u r by simp
  then show ?case
    using updateObstacle_notes [OF u] Cons.IH [OF r] by simp
qed

lemma analyzeAndSpawn_inv:
  assumes "notes_inv s"
  shows "notes_inv (analyzeAndSpawn a s)"
proof -
  have h: "notes_inv (s\<lparr>bassHistory := bh\<rparr>)" for bh
    using assms by (simp add: notes_inv_def)
  have l: "notes_inv x \<Longrightarrow> notes_inv (x\<lparr>lastSpawnTime := t\<rparr>)" for x t
    by (simp add: notes_inv_def)
  show ?thesis
    unfolding analyzeAndSpawn_def Let_def
    using assms h by (auto intro!: l spawnBlock_inv)
qed

lemma updateLevel_inv:
  assumes "notes_inv s"
  shows "notes_inv (updateLevel w h a s)"
proof -
  let ?s0 = "if userAudioBuffer s then analyzeAndSpawn a s else s"
  have i0: "notes_inv ?s0"
    using assms analyzeAndSpawn_inv by simp
  obtain bs s1 where u: "updateBlocks (w / 2) (h / 2) (blocks ?s0) ?s0 = (bs, s1)"
    by (metis surj_pair)
  let ?s2 = "s1\<lparr>blocks := filter (\<lambda>b. \<not> blockRemove b) bs\<rparr>"
  obtain os s3 where v: "updateObstacles (obstacles ?s2) ?s2 = (os, s3)"
    by (metis surj_pair)
  have r: "updateLevel w h a s = s3\<lparr>obstacles := filter (\<lambda>ob. \<not> obsRemove ob) os\<rparr>"
    using u v by (simp add: updateLevel_def Let_def)
  have "hitNotes s1 + sum_list (map pending bs) \<le> totalNotes s1"
    using updateBlocks_count [OF u] i0 by (simp add: notes_inv_def)
  then have "notes_inv ?s2"
    using pending_filter [of "\<lambda>b. \<not> blockRemove b" bs] by (simp add: notes_inv_def)
  then have "notes_inv s3"
    using updateObstacles_notes [OF v] by (simp add: notes_inv_def)
  then show ?thesis
    unfolding r by (simp add: notes_inv_def)
qed

lemma startLevel_inv:
  assumes "notes_inv s"
  shows "notes_inv (startLevel bpm name ctx s)"
  using assms by (cases ctx) (simp_all add: startLevel_def Let_def notes_inv_def)

lemma menuTrack_inv:
  assumes "notes_inv (snd (snd acc))"
  shows "notes_inv (snd (snd (menuTrack cx ts ctx idx track acc)))"
proof -
  obtain hi dr s where a: "acc = (hi, dr, s)" by (metis prod_cases3)
  have i: "notes_inv s" using assms a by simp
  have f: "notes_inv (s\<lparr>fileClicks := fileClicks s + 1, hoverStartTime := ts - 20000\<rparr>)"
    using i by (simp add: notes_inv_def)
  have g: "notes_inv (startLevel (trackBpm track) (trackName track) ctx s)"
    using i by (rule startLevel_inv)
  show ?thesis
    unfolding a menuTrack_def Let_def prod.case using i f g
    by (simp split: if_split)
qed

lemma menuTracks_inv:
  "notes_inv (snd (snd acc)) \<Longrightarrow> notes_inv (snd (snd (menuTracks cx ts ctx idx tracks acc)))"
proof (induction tracks arbitrary: idx acc)
  case Nil
  then show ?case by simp
next
  case (Cons t tracks)
  have "notes_inv (snd (snd (menuTrack cx ts ctx idx t acc)))"
    using Cons.prems by (rule menuTrack_inv)
  then have "notes_inv (snd (snd (menuTracks cx ts ctx (Suc idx) tracks
                                     (menuTrack cx ts ctx idx t acc))))"
    by (rule Cons.IH)
  then show ?case by simp
qed

lemma updateMenu_inv:
  assumes "notes_inv s"
  shows "notes_inv (snd (updateMenu w ts ctx s))"
proof -
  obtain hi dr s1 where m: "menuTracks (w / 2) ts ctx 0 TRACK_LIST (None, [], s) = (hi, dr, s1)"
    by (metis prod_cases3)
  have "notes_inv (snd (snd (menuTracks (w / 2) ts ctx 0 TRACK_LIST (None, [], s))))"
    by (rule menuTracks_inv) (simp add: assms)
  then have i1: "notes_inv s1"
    using m by simp
  have r: "snd (updateMenu w ts ctx s) =
             (case hi of
                Some item \<Rightarrow>
                  if hoveredTrackId s1 \<noteq> Some item
                  then s1\<lparr>hoveredTrackId := Some item, hoverStartTime := ts\<rparr>
                  else s1
              | None \<Rightarrow> s1\<lparr>hoveredTrackId := None, hoverStartTime := 0\<rparr>)"
    using m by (simp add: updateMenu_def Let_def)
  have k: "notes_inv (s1\<lparr>hoveredTrackId := x, hoverStartTime := y\<rparr>)" for x y
    using i1 by (simp add: notes_inv_def)
  show ?thesis
    unfolding r using i1 k by (cases hi) simp_all
qed

lemma updateTracking_inv: "notes_inv s \<Longrightarrow> notes_inv (updateTracking w h frame s)"
  by (cases frame) (simp_all add: updateTracking_def notes_inv_def)

lemma updateGame_inv:
  assumes "notes_inv s"
  shows "notes_inv (updateGame f s)"
proof -
  have t: "notes_inv (updateTracking (canvasW f) (canvasH f) (pose f) s)"
    using assms by (rule updateTracking_inv)
  show ?thesis
    unfolding updateGame_def Let_def
    using updateLevel_inv [OF t] updateMenu_inv [OF t] by simp
qed

lemma reachable_inv: "reachable s \<Longrightarrow> notes_inv s"
proof (induction rule: reachable.induct)
  case r_init
  show ?case by (simp add: notes_inv_def initial_def)
next
  case (r_sched s bpm now rnd s')
  then show ?case by (auto simp: scheduler_def dest: scheduler_loop_inv)
next
  case (r_frame s f)
  then show ?case by (simp add: updateGame_inv)
next
  case (r_ended s)
  then show ?case by (simp add: notes_inv_def finishGame_notes)
next
  case (r_upload s name ctx)
  then have "notes_inv (s\<lparr>userAudioBuffer := True\<rparr>)" by (simp add: notes_inv_def)
  then show ?case by (rule startLevel_inv)
next
  case (r_active s)
  then show ?case by (simp add: notes_inv_def)
next
  case (r_cleanup s)
  then show ?case by (simp add: notes_inv_def)
qed

lemma judgeBlock_shape:
  "judgeBlock px py sz b s = (b', s') \<Longrightarrow> blockType b' = blockType b \<and> (blockHit b \<longrightarrow> blockHit b')
     \<and> blockZ b' = blockZ b"
  by (auto simp: judgeBlock_def Let_def split: if_splits option.splits)

lemma expireBlock_shape:
  "expireBlock b s = (b', s') \<Longrightarrow> blockType b' = blockType b \<and> blockHit b' = blockHit b"
  by (auto simp: expireBlock_def)

lemma updateBlock_shape:
  assumes "updateBlock cx cy b s = (b', s')"
  shows "blockType b' = blockType b \<and> (blockHit b \<longrightarrow> blockHit b')"
proof (cases "blockRemove b")
  case True
  then show ?thesis using assms by (simp add: updateBlock_def)
next
  case False
  define b1 where "b1 = b\<lparr>blockZ := blockZ b - GAME_SPEED\<rparr>"
  define proj where "proj = project ((gridX b1 - 1.5) * GRID_X_SPACING)
      ((1 - gridY b1) * GRID_Y_SPACING) (blockZ b1) cx cy"
  define mid where "mid = (if \<not> blockHit b1 \<and> blockZ b1 < HIT_WINDOW_Z_FAR
                              \<and> blockZ b1 > HIT_WINDOW_Z_NEAR
                           then judgeBlock (fst proj) (fst (snd proj)) (BLOCK_SIZE * snd (snd proj)) b1 s
                           else (b1, s))"
  obtain b2 s2 where j: "mid = (b2, s2)"
    by (metis surj_pair)
  have c2: "blockType b2 = blockType b \<and> (blockHit b \<longrightarrow> blockHit b2)"
  proof (cases "\<not> blockHit b1 \<and> blockZ b1 < HIT_WINDOW_Z_FAR \<and> blockZ b1 > HIT_WINDOW_Z_NEAR")
    case True
    with j have "judgeBlock (fst proj) (fst (snd proj)) (BLOCK_SIZE * snd (snd proj)) b1 s
                       = (b2, s2)"
      unfolding mid_def by simp
    from judgeBlock_shape [OF this] show ?thesis by (simp add: b1_def)
  next
    case False
    with j have "(b1, s) = (b2, s2)" unfolding mid_def by simp
    then show ?thesis by (auto simp: b1_def)
  qed
  have "updateBlock cx cy b s = (if blockZ (fst mid) < - 250 then expireBlock (fst mid) (snd mid)
                                 else (fst mid, snd mid))"
    using False unfolding updateBlock_def mid_def proj_def b1_def Let_def
    by (simp add: split_beta)
  then have e: "(b', s') = (if blockZ b2 < - 250 then expireBlock b2 s2 else (b2, s2))"
    using assms j by simp
  show ?thesis
  proof (cases "blockZ b2 < - 250")
    case True
    then have "expireBlock b2 s2 = (b', s')" using e by simp
    from expireBlock_shape [OF this] c2 show ?thesis by simp
  next
    case False
    then show ?thesis using e c2 by simp
  qed
qed

lemma updateBlock_hitNotes:
  "hitNotes (snd (updateBlock cx cy b s)) =
     hitNotes s + (if blockType b = Normal \<and> \<not> blockHit b \<and> blockHit (fst (updateBlock cx cy b s))
                   then 1 else 0)"
proof -
  obtain b' s' where u: "updateBlock cx cy b s = (b', s')" by (metis surj_pair)
  show ?thesis
    using updateBlock_count [OF u] updateBlock_shape [OF u] unfolding u
    by (cases "blockType b") (auto simp: pending_def split: if_splits)
qed

text \<open>
  C9: in every reachable state hitNotes \<le> totalNotes, so the accuracy
  hitNotes / totalNotes lies in [0,1] whenever totalNotes > 0. totalNotes grows by one
  exactly when a regular block is spawned (a bomb leaves it unchanged), spawning leaves
  hitNotes unchanged, and the step of a block adds one to hitNotes exactly when it turns
  an unhit regular block into a hit one, so that no block is counted twice.
\<close>

theorem hit_notes_bounded:
  assumes "reachable s"
  shows "hitNotes s \<le> totalNotes s
       \<and> (totalNotes s > 0 \<longrightarrow>
            0 \<le> real (hitNotes s) / real (totalNotes s)
            \<and> real (hitNotes s) / real (totalNotes s) \<le> 1)
       \<and> totalNotes (spawnBlock gx gy col ty rid rdir s)
            = totalNotes s + (if ty = Normal then 1 else 0)
       \<and> hitNotes (spawnBlock gx gy col ty rid rdir s) = hitNotes s
       \<and> hitNotes (snd (updateBlock cx cy b s))
            = hitNotes s + (if blockType b = Normal \<and> \<not> blockHit b
                                \<and> blockHit (fst (updateBlock cx cy b s)) then 1 else 0)"
proof -
  have le: "hitNotes s \<le> totalNotes s"
    using reachable_inv [OF assms] by (simp add: notes_inv_def)
  then have "totalNotes s > 0 \<longrightarrow>
            0 \<le> real (hitNotes s) / real (totalNotes s)
            \<and> real (hitNotes s) / real (totalNotes s) \<le> 1"
    by simp
  then show ?thesis
    using le spawnBlock_notes(1,2) updateBlock_hitNotes by simp
qed

theorem hit_notes_bounded_witness:
  "totalNotes
     (updateGame
        \<lparr>canvasW = 1280, canvasH = 720, timestamp = 16, pose = None, audioCtx = Some 0,
         analysis = \<lparr>freqData = [200, 200, 200, 200, 200, 200, 200, 200, 200, 200], perfNow = 1000, perfNowAfter = 1000,
                     rSecond = 0, rId1 = 0, rDir1 = 0, rId2 = 0, rDir2 = 0\<rparr>\<rparr>
        (updateGame
           \<lparr>canvasW = 1280, canvasH = 720, timestamp = 0, pose = None, audioCtx = Some 0,
            analysis = \<lparr>freqData = [0, 0, 0, 0, 0, 0, 0, 0, 0, 0], perfNow = 984, perfNowAfter = 984,
                        rSecond = 0, rId1 = 0, rDir1 = 0, rId2 = 0, rDir2 = 0\<rparr>\<rparr>
           (startLevel 120 ''song'' (Some 0) (initial\<lparr>userAudioBuffer := True\<rparr>)))) = 1
   \<and> hitNotes
     (updateGame
        \<lparr>canvasW = 1280, canvasH = 720, timestamp = 16, pose = None, audioCtx = Some 0,
         analysis = \<lparr>freqData = [200, 200, 200, 200, 200, 200, 200, 200, 200, 200], perfNow = 1000, perfNowAfter = 1000,
                     rSecond = 0, rId1 = 0, rDir1 = 0, rId2 = 0, rDir2 = 0\<rparr>\<rparr>
        (updateGame
           \<lparr>canvasW = 1280, canvasH = 720, timestamp = 0, pose = None, audioCtx = Some 0,
            analysis = \<lparr>freqData = [0, 0, 0, 0, 0, 0, 0, 0, 0, 0], perfNow = 984, perfNowAfter = 984,
                        rSecond = 0, rId1 = 0, rDir1 = 0, rId2 = 0, rDir2 = 0\<rparr>\<rparr>
           (startLevel 120 ''song'' (Some 0) (initial\<lparr>userAudioBuffer := True\<rparr>)))) \<le> 1"
proof -
  let ?s1 = "startLevel 120 ''song'' (Some 0) (initial\<lparr>userAudioBuffer := True\<rparr>)"
  let ?f1 = "\<lparr>canvasW = 1280, canvasH = 720, timestamp = 0, pose = None, audioCtx = Some 0,
            analysis = \<lparr>freqData = [0, 0, 0, 0, 0, 0, 0, 0, 0, 0], perfNow = 984, perfNowAfter = 984,
                        rSecond = 0, rId1 = 0, rDir1 = 0, rId2 = 0, rDir2 = 0\<rparr>\<rparr>"
  let ?f2 = "\<lparr>canvasW = 1280, canvasH = 720, timestamp = 16, pose = None, audioCtx = Some 0,
         analysis = \<lparr>freqData = [200, 200, 200, 200, 200, 200, 200, 200, 200, 200], perfNow = 1000, perfNowAfter = 1000,
                     rSecond = 0, rId1 = 0, rDir1 = 0, rId2 = 0, rDir2 = 0\<rparr>\<rparr>"
  have r: "reachable (updateGame ?f2 (updateGame ?f1 ?s1))"
    by (intro r_frame r_upload r_init)
  have e1: "updateGame ?f1 ?s1 = ?s1\<lparr>bassHistory := [0]\<rparr>"
    by (simp add: updateGame_def updateTracking_def updateLevel_def analyzeAndSpawn_def
        startLevel_def initial_def Let_def)
  have t: "totalNotes (updateGame ?f2 (?s1\<lparr>bassHistory := [0]\<rparr>)) = 1"
    by (simp add: updateGame_def updateTracking_def updateLevel_def analyzeAndSpawn_def
        startLevel_def initial_def Let_def spawnBlock_def updateBlock_def SPAWN_Z_def
        GAME_SPEED_def HIT_WINDOW_Z_FAR_def split_beta)
  show ?thesis
    using hit_notes_bounded [OF r] t unfolding e1 by simp
qed

section \<open>The scheduler drains what is due\<close>






































lemma spawnBlock_beat:
  "current16thNote (spawnBlock gx gy col ty rid rdir s) = current16thNote s"
  by (simp add: spawnBlock_def Let_def)

lemma spawnWall_beat: "current16thNote (spawnWall ty rid s) = current16thNote s"
  by (simp add: spawnWall_def)

lemma subdivision_beat: "current16thNote (subdivision bpm r s) < 16"
  by (simp add: subdivision_def Let_def)

lemma scheduler_loop_beat:
  "scheduler_loop bpm now rnd k s = Some s' \<Longrightarrow> current16thNote s < 16
   \<Longrightarrow> current16thNote s' < 16"
proof (induction rule: scheduler_loop.raw_induct [rotated 1, consumes 1, case_names step])
  case (step loop bpm now rnd k s s')
  show ?case
  proof (cases "nextNoteTime s < dadd now scheduleAhead")
    case True
    then have "loop bpm now rnd (Suc k) (subdivision bpm (rnd k) s) = Some s'"
      using step.hyps by simp
    then show ?thesis
      using step.IH subdivision_beat by blast
  next
    case False
    then show ?thesis
      using step.hyps step.prems by simp
  qed
qed

lemma finishGame_beat: "current16thNote (finishGame s) = current16thNote s"
  by (simp add: finishGame_def)

lemma judgeBlock_beat:
  "current16thNote (snd (judgeBlock px py sz b s)) = current16thNote s"
  by (simp add: judgeBlock_def Let_def finishGame_beat split: option.split)

lemma expireBlock_beat: "current16thNote (snd (expireBlock b s)) = current16thNote s"
  by (simp add: expireBlock_def Let_def finishGame_beat)

lemma updateBlock_beat: "current16thNote (snd (updateBlock cx cy b s)) = current16thNote s"
  by (simp add: updateBlock_def Let_def split_beta judgeBlock_beat expireBlock_beat)

lemma updateBlocks_beat: "current16thNote (snd (updateBlocks cx cy bs s)) = current16thNote s"
  by (induction bs arbitrary: s) (simp_all add: split_beta updateBlock_beat)

lemma updateObstacle_beat: "current16thNote (snd (updateObstacle ob s)) = current16thNote s"
  by (simp add: updateObstacle_def Let_def split_beta)

lemma updateObstacles_beat: "current16thNote (snd (updateObstacles os s)) = current16thNote s"
  by (induction os arbitrary: s) (simp_all add: split_beta updateObstacle_beat)

lemma analyzeAndSpawn_beat: "current16thNote (analyzeAndSpawn a s) = current16thNote s"
  by (simp add: analyzeAndSpawn_def Let_def spawnBlock_beat)

lemma updateLevel_beat: "current16thNote (updateLevel w h a s) = current16thNote s"
  by (simp add: updateLevel_def Let_def split_beta updateObstacles_beat updateBlocks_beat
      analyzeAndSpawn_beat)

lemma startLevel_beat:
  "current16thNote s < 16 \<Longrightarrow> current16thNote (startLevel bpm name ctx s) < 16"
  by (cases ctx) (simp_all add: startLevel_def Let_def)

lemma menuTrack_beat:
  assumes "current16thNote (snd (snd acc)) < 16"
  shows "current16thNote (snd (snd (menuTrack cx ts ctx idx track acc))) < 16"
proof -
  obtain hi dr s where a: "acc = (hi, dr, s)" by (metis prod_cases3)
  have i: "current16thNote s < 16" using assms a by simp
  have g: "current16thNote (startLevel (trackBpm track) (trackName track) ctx s) < 16"
    using i by (rule startLevel_beat)
  show ?thesis
    unfolding a menuTrack_def Let_def prod.case using i g
    by (simp split: if_split)
qed

lemma menuTracks_beat:
  "current16thNote (snd (snd acc)) < 16
   \<Longrightarrow> current16thNote (snd (snd (menuTracks cx ts ctx idx tracks acc))) < 16"
proof (induction tracks arbitrary: idx acc)
  case Nil
  then show ?case by simp
next
  case (Cons t tracks)
  have "current16thNote (snd (snd (menuTrack cx ts ctx idx t acc))) < 16"
    using Cons.prems by (rule menuTrack_beat)
  then have "current16thNote (snd (snd (menuTracks cx ts ctx (Suc idx) tracks
                                     (menuTrack cx ts ctx idx t acc)))) < 16"
    by (rule Cons.IH)
  then show ?case by simp
qed

lemma updateMenu_beat:
  assumes "current16thNote s < 16"
  shows "current16thNote (snd (updateMenu w ts ctx s)) < 16"
proof -
  obtain hi dr s1 where m: "menuTracks (w / 2) ts ctx 0 TRACK_LIST (None, [], s) = (hi, dr, s1)"
    by (metis prod_cases3)
  have "current16thNote (snd (snd (menuTracks (w / 2) ts ctx 0 TRACK_LIST (None, [], s)))) < 16"
    by (rule menuTracks_beat) (simp add: assms)
  then have i1: "current16thNote s1 < 16"
    using m by simp
  show ?thesis
    using m i1 by (cases hi) (simp_all add: updateMenu_def Let_def)
qed

lemma updateGame_beat:
  assumes "current16thNote s < 16"
  shows "current16thNote (updateGame f s) < 16"
proof -
  have t: "current16thNote (updateTracking (canvasW f) (canvasH f) (pose f) s) < 16"
    using assms by (cases "pose f") (simp_all add: updateTracking_def)
  show ?thesis
    unfolding updateGame_def Let_def
    using updateMenu_beat [OF t] t by (simp add: updateLevel_beat)
qed

lemma reachable_beat: "reachable s \<Longrightarrow> current16thNote s < 16"
proof (induction rule: reachable.induct)
  case r_init
  show ?case by (simp add: initial_def)
next
  case (r_sched s bpm now rnd s')
  then show ?case by (auto simp: scheduler_def dest: scheduler_loop_beat)
next
  case (r_frame s f)
  then show ?case by (simp add: updateGame_beat)
next
  case (r_ended s)
  then show ?case by (simp add: finishGame_beat)
next
  case (r_upload s name ctx)
  then have "current16thNote (s\<lparr>userAudioBuffer := True\<rparr>) < 16" by simp
  then show ?case by (rule startLevel_beat)
next
  case (r_active s)
  then show ?case by simp
next
  case (r_cleanup s)
  then show ?case by simp
qed



section \<open>Dwell selection\<close>




































end
